theory Spec2Isabelle
  imports Main "HOL-Library.Word"
begin

section \<open>Data model of package httpfltr\<close>

text \<open>
  Go's \<open>uint8\<close> and the bytes of a Go \<open>string\<close> are both modelled by \<^typ>\<open>char\<close>, which
  is exactly one byte; a \<open>[]uint8\<close>, a \<open>[n]uint8\<close> and a \<open>string\<close> are all \<^typ>\<open>string\<close>, so
  that the conversion \<open>string(event.Buf[:])\<close> is the identity.  Go's \<open>int\<close> is \<^typ>\<open>int\<close>
  (no index here comes near 64 bits), \<open>uint32\<close> and \<open>int32\<close> are \<^typ>\<open>32 word\<close>.
  A nil pointer or a nil error is \<open>None\<close>.
\<close>

type_synonym uint32 = "32 word"
type_synonym int32 = "32 word"

datatype error = EOF | ErrUnexpectedEOF | ErrNotExist | ErrKeyNotExist | ErrOther

abbreviation NUL :: char where
  "NUL \<equiv> CHR 0x00"

record BPFConnInfo =
  S_addr :: string
  D_addr :: string

record BPFHTTPInfo =
  ConnInfo :: BPFConnInfo
  Pid :: uint32
  Buf :: string

record HTTPInfo =
  BPFHTTPInfo :: BPFHTTPInfo
  Method :: string
  URL :: string
  Comm :: string
  Host :: string
  Peer :: string

record TracerConfig =
  SystemWide :: bool
  BpfDebug :: bool

text \<open>
  A loaded kernel program is known to this package by its handle only.  The fields of
  \<open>bpfObjects\<close> are pointers, so each may be nil.  \<open>DeadPids\<close> is the kernel map from a pid to
  the 16-byte name of the process that had it; the field holds what the map contains
  when the tracer is used.
\<close>

type_synonym program = nat

record bpfObjects =
  KprobeSysExit :: "program option"
  KprobeTcpConnect :: "program option"
  KprobeTcpRcvEstablished :: "program option"
  KretprobeSockAlloc :: "program option"
  KretprobeSysAccept4 :: "program option"
  KretprobeSysConnect :: "program option"
  SocketHttpFilter :: "program option"
  DeadPids :: "uint32 \<rightharpoonup> string"

record Tracer =
  Cfg :: TracerConfig
  bpfObjects :: bpfObjects

text \<open>\<open>ebpfcommon.FunctionPrograms\<close>, as the map literals of \<open>KProbes\<close> fill it.\<close>

record FunctionPrograms =
  Required :: bool
  Start :: "program option"
  End :: "program option"

text \<open>\<open>exec.FileInfo\<close>: only its \<open>Pid\<close> is read here.\<close>

record FileInfo =
  FileInfo_Pid :: int32

text \<open>The values stored in the \<open>map[string]any\<close> of \<open>Constants\<close>.\<close>

datatype any = AnyInt32 int32 | AnyUint32 uint32

text \<open>
  What the functions below take from outside this file: the capacity of \<open>Buf\<close> in the
  generated struct \<open>bpfHttpInfoT\<close>, two pure library functions that are left abstract
  (\<open>net.IP.String\<close> and \<open>strings.TrimSpace\<close>), the file system as \<open>os.Stat\<close> and
  \<open>os.ReadFile\<close> answer for a path (\<open>ReadFile\<close> returns the bytes read so far together with
  its error), and the package's function \<open>findNamespace\<close>, which returns a namespace id
  and an error.
\<close>

record env =
  BufLen :: nat
  IP_String :: "string \<Rightarrow> string"
  TrimSpace :: "string \<Rightarrow> string"
  Stat :: "string \<Rightarrow> error option"
  ReadFile :: "string \<Rightarrow> string \<times> error option"
  findNamespace :: "int32 \<Rightarrow> uint32 \<times> error option"

text \<open>
  The mutable state: the package-level cache \<open>activePids\<close>, and a log of the calls made to
  the underlying sources (the file system and the dead-process table), kept so that
  theorems can count them.
\<close>

datatype io = IoStat string | IoReadFile string | IoDeadLookup uint32

record lru =
  capacity :: nat
  items :: "(uint32 \<times> string) list"

record state =
  activePids :: lru
  io_log :: "io list"

section \<open>Library functions of the extraction\<close>

text \<open>\<open>strings.Index(s, substr)\<close>: the index of the first instance of \<open>substr\<close> in \<open>s\<close>, or -1.\<close>

fun strings_Index :: "string \<Rightarrow> string \<Rightarrow> int" where
  "strings_Index [] substr = (if substr = [] then 0 else - 1)"
| "strings_Index (c # s) substr =
     (if take (length substr) (c # s) = substr then 0
      else (let i = strings_Index s substr in if i < 0 then - 1 else i + 1))"

text \<open>
  The slice expression \<open>s[lo:hi]\<close>.  Go panics when the bounds are out of range; \<open>None\<close> is
  that panic.
\<close>

definition slice :: "string \<Rightarrow> int \<Rightarrow> int \<Rightarrow> string option" where
  "slice s lo hi =
     (if 0 \<le> lo \<and> lo \<le> hi \<and> hi \<le> int (length s)
      then Some (take (nat (hi - lo)) (drop (nat lo) s)) else None)"

section \<open>Method and URL extraction\<close>

definition url :: "BPFHTTPInfo \<Rightarrow> string option" where
  "url event =
     (let buf = Buf event;
          space = strings_Index buf '' '' in
      if space < 0 then Some ''''
      else (case slice buf (space + 1) (int (length buf)) of
              None \<Rightarrow> None
            | Some rest \<Rightarrow>
                (let nextSpace = strings_Index rest '' '' in
                 if nextSpace < 0 then Some ''''
                 else slice buf (space + 1) (nextSpace + space + 1))))"

text \<open>The function \<open>method\<close> of the source; the name is a keyword of Isabelle.\<close>

definition method_of :: "BPFHTTPInfo \<Rightarrow> string option" where
  "method_of event =
     (let buf = Buf event;
          space = strings_Index buf '' '' in
      if space < 0 then Some ''''
      else slice buf 0 space)"


section \<open>Library functions of the resolver\<close>

text \<open>\<open>bytes.IndexByte(b, c)\<close>: the index of the first instance of \<open>c\<close> in \<open>b\<close>, or -1.\<close>

fun bytes_IndexByte :: "string \<Rightarrow> char \<Rightarrow> int" where
  "bytes_IndexByte [] c = - 1"
| "bytes_IndexByte (b # bs) c =
     (if b = c then 0
      else (let i = bytes_IndexByte bs c in if i < 0 then - 1 else i + 1))"

text \<open>The builtin \<open>copy(dst, src)\<close>, returning the new contents of \<open>dst\<close>.\<close>

definition go_copy :: "string \<Rightarrow> string \<Rightarrow> string" where
  "go_copy dst src = take (length dst) src @ drop (length src) dst"

text \<open>\<open>strconv.FormatUint(n, 10)\<close>.\<close>

function FormatUint :: "nat \<Rightarrow> string" where
  "FormatUint n =
     (if n < 10 then [char_of (48 + n)]
      else FormatUint (n div 10) @ [char_of (48 + n mod 10)])"
  by pat_completeness auto
termination
  by (relation "measure id") auto

declare FormatUint.simps [simp del]

text \<open>\<open>filepath.Join("/proc", strconv.FormatUint(uint64(pid), 10), "comm")\<close>.\<close>

definition procPath :: "uint32 \<Rightarrow> string" where
  "procPath pid = ''/proc/'' @ FormatUint (unat pid) @ ''/comm''"

definition os_IsNotExist :: "error option \<Rightarrow> bool" where
  "os_IsNotExist err = (err = Some ErrNotExist)"

text \<open>
  \<open>(*ebpf.Map).Lookup(key, &out)\<close>: the value stored under the key is written to \<open>out\<close>;
  a missing key is an error and leaves \<open>out\<close> as it was.
\<close>

definition Lookup :: "(uint32 \<rightharpoonup> string) \<Rightarrow> uint32 \<Rightarrow> string \<Rightarrow> string \<times> error option" where
  "Lookup m key out = (case m key of None \<Rightarrow> (out, Some ErrKeyNotExist) | Some v \<Rightarrow> (v, None))"

text \<open>
  Modelled from the spec: the cache behind \<open>activePids\<close> is \<open>lru.New[uint32, string](64)\<close> of
  the imported package golang-lru, whose code is not under src/.  The spec calls it a
  bounded least-recently-used cache of fixed capacity, with eviction driven by capacity
  only.  The entries are kept most recently used first.  \<open>Get\<close> returns the value and
  true and makes the entry the most recent one, or the zero value and false.  \<open>Add\<close>
  updates an entry that is present and makes it the most recent one; otherwise it puts
  the new entry in front and, when that exceeds the capacity, removes the oldest entry;
  it returns whether an entry was evicted.
\<close>

text \<open>\<open>lru.New\<close> fails on a size that is not positive; the only size it is given is 64.\<close>

definition lru_New :: "nat \<Rightarrow> lru" where
  "lru_New n = \<lparr>capacity = n, items = []\<rparr>"

definition lru_Get :: "lru \<Rightarrow> uint32 \<Rightarrow> (string \<times> bool) \<times> lru" where
  "lru_Get c key =
     (case map_of (items c) key of
        Some v \<Rightarrow> ((v, True), c\<lparr>items := (key, v) # filter (\<lambda>kv. fst kv \<noteq> key) (items c)\<rparr>)
      | None \<Rightarrow> (('''', False), c))"

definition lru_Add :: "lru \<Rightarrow> uint32 \<Rightarrow> string \<Rightarrow> bool \<times> lru" where
  "lru_Add c key v =
     (case map_of (items c) key of
        Some old \<Rightarrow> (False, c\<lparr>items := (key, v) # filter (\<lambda>kv. fst kv \<noteq> key) (items c)\<rparr>)
      | None \<Rightarrow>
          (let its = (key, v) # items c;
               evict = (length its > capacity c)
           in (evict, c\<lparr>items := (if evict then butlast its else its)\<rparr>)))"

text \<open>\<open>var activePids, _ = lru.New[uint32, string](64)\<close>, and the state the program starts in.\<close>

definition init_state :: state where
  "init_state = \<lparr>activePids = lru_New 64, io_log = []\<rparr>"

section \<open>Decoding a ring-buffer record\<close>

text \<open>
  Modelled from the spec: the struct \<open>bpfHttpInfoT\<close> is generated from the kernel-side
  program and is not under src/.  The spec gives its layout: the connection info, a pair
  of 16-byte address fields (source, destination); the pid, 4 bytes; and the raw buffer
  of fixed capacity, which is \<open>BufLen\<close> of the environment; little-endian.
\<close>

definition RawSize :: "nat \<Rightarrow> nat" where
  "RawSize n = 16 + 16 + 4 + n"

definition zero_BPFHTTPInfo :: "nat \<Rightarrow> BPFHTTPInfo" where
  "zero_BPFHTTPInfo n =
     \<lparr>ConnInfo = \<lparr>S_addr = replicate 16 NUL, D_addr = replicate 16 NUL\<rparr>,
      Pid = 0, Buf = replicate n NUL\<rparr>"

definition zero_HTTPInfo :: "nat \<Rightarrow> HTTPInfo" where
  "zero_HTTPInfo n =
     \<lparr>BPFHTTPInfo = zero_BPFHTTPInfo n, Method = '''', URL = '''', Comm = '''',
      Host = '''', Peer = ''''\<rparr>"

text \<open>\<open>binary.LittleEndian.Uint32\<close> on the bytes of a field.\<close>

definition le_uint32 :: "string \<Rightarrow> uint32" where
  "le_uint32 bs = word_of_nat (foldr (\<lambda>b acc. of_char b + 256 * acc) bs 0)"

text \<open>
  \<open>binary.Read(bytes.NewBuffer(raw), binary.LittleEndian, &event)\<close>: it reads exactly the
  size of the struct, and fails with \<open>io.EOF\<close> on an empty input and with
  \<open>io.ErrUnexpectedEOF\<close> on a short one, leaving \<open>event\<close> at its zero value; bytes beyond the
  size are ignored.
\<close>

definition binary_Read :: "nat \<Rightarrow> string \<Rightarrow> BPFHTTPInfo \<times> error option" where
  "binary_Read n raw =
     (if length raw < RawSize n
      then (zero_BPFHTTPInfo n, Some (if raw = [] then EOF else ErrUnexpectedEOF))
      else (\<lparr>ConnInfo = \<lparr>S_addr = take 16 raw, D_addr = take 16 (drop 16 raw)\<rparr>,
             Pid = le_uint32 (take 4 (drop 32 raw)),
             Buf = take n (drop 36 raw)\<rparr>, None))"

definition hostInfo :: "env \<Rightarrow> BPFHTTPInfo \<Rightarrow> string \<times> string" where
  "hostInfo e event =
     (let src = go_copy (replicate 16 NUL) (S_addr (ConnInfo event));
          dst = go_copy (replicate 16 NUL) (D_addr (ConnInfo event))
      in (IP_String e src, IP_String e dst))"

section \<open>Resolving a pid to a process name\<close>

text \<open>
  A function that slices returns an option, \<open>None\<close> being the panic of a slice out of
  range; a function that touches the cache or an underlying source takes the state and
  returns the new one.
\<close>

definition cstr :: "string \<Rightarrow> string option" where
  "cstr chars =
     (let addrLen = bytes_IndexByte chars NUL;
          addrLen = (if addrLen < 0 then int (length chars) else addrLen)
      in slice chars 0 addrLen)"

definition commNameOfDeadPid :: "Tracer \<Rightarrow> uint32 \<Rightarrow> state \<Rightarrow> (string \<times> state) option" where
  "commNameOfDeadPid p pid st =
     (let (name, err) = Lookup (DeadPids (bpfObjects p)) pid (replicate 16 NUL);
          st' = st\<lparr>io_log := io_log st @ [IoDeadLookup pid]\<rparr>
      in if err \<noteq> None then Some ('''', st')
         else (case cstr name of None \<Rightarrow> None | Some s \<Rightarrow> Some (s, st')))"

text \<open>
  When \<open>os.ReadFile\<close> fails, \<open>commNameOfDeadPid\<close> is called and its result is dropped: the
  function goes on to return the trimmed bytes that \<open>ReadFile\<close> returned.
\<close>

definition commName :: "env \<Rightarrow> Tracer \<Rightarrow> uint32 \<Rightarrow> state \<Rightarrow> (string \<times> state) option" where
  "commName e p pid st =
     (let path = procPath pid;
          err = Stat e path;
          st1 = st\<lparr>io_log := io_log st @ [IoStat path]\<rparr>
      in if os_IsNotExist err then commNameOfDeadPid p pid st1
         else (let (name, err) = ReadFile e path;
                   st2 = st1\<lparr>io_log := io_log st1 @ [IoReadFile path]\<rparr>
               in (case (if err \<noteq> None then map_option snd (commNameOfDeadPid p pid st2)
                         else Some st2) of
                     None \<Rightarrow> None
                   | Some st3 \<Rightarrow> Some (TrimSpace e name, st3))))"

definition serviceName :: "env \<Rightarrow> Tracer \<Rightarrow> uint32 \<Rightarrow> state \<Rightarrow> (string \<times> state) option" where
  "serviceName e p pid st =
     (let ((cached, ok), c) = lru_Get (activePids st) pid;
          st1 = st\<lparr>activePids := c\<rparr>
      in if ok then Some (cached, st1)
         else (case commName e p pid st1 of
                 None \<Rightarrow> None
               | Some (name, st2) \<Rightarrow>
                   Some (name, st2\<lparr>activePids := snd (lru_Add (activePids st2) pid name)\<rparr>)))"

text \<open>
  \<open>toRequestTrace\<close> returns a value and an error, as the Go function does; \<open>None\<close> is a
  panic.
\<close>

definition toRequestTrace ::
  "env \<Rightarrow> Tracer \<Rightarrow> string \<Rightarrow> state \<Rightarrow> ((HTTPInfo \<times> error option) \<times> state) option" where
  "toRequestTrace e p RawSample st =
     (let result = zero_HTTPInfo (BufLen e);
          (event, err) = binary_Read (BufLen e) RawSample
      in if err \<noteq> None then Some ((result, err), st)
         else (let result = \<lparr>BPFHTTPInfo = event, Method = '''', URL = '''', Comm = '''',
                              Host = '''', Peer = ''''\<rparr>;
                   (source, target) = hostInfo e event;
                   result = result\<lparr>Host := target\<rparr>;
                   result = result\<lparr>Peer := source\<rparr>
               in (case url event of
                     None \<Rightarrow> None
                   | Some u \<Rightarrow>
                       (let result = result\<lparr>URL := u\<rparr>
                        in (case method_of event of
                              None \<Rightarrow> None
                            | Some m \<Rightarrow>
                                (let result = result\<lparr>Method := m\<rparr>
                                 in if SystemWide (Cfg p)
                                    then (case serviceName e p (Pid event) st of
                                            None \<Rightarrow> None
                                          | Some (name, st') \<Rightarrow>
                                              Some ((result\<lparr>Comm := name\<rparr>, None), st'))
                                    else Some ((result, None), st)))))))"

section \<open>Constants and probes\<close>

text \<open>
  \<open>Constants\<close> returns the map (\<open>None\<close> is the nil map) and the warnings it logged.
\<close>

definition Constants ::
  "env \<Rightarrow> Tracer \<Rightarrow> FileInfo \<Rightarrow> (string \<rightharpoonup> any) option \<times> string list" where
  "Constants e p finfo =
     (if SystemWide (Cfg p) then (None, [])
      else (let m = [''current_pid'' \<mapsto> AnyInt32 (FileInfo_Pid finfo)];
                (npid, err) = findNamespace e (FileInfo_Pid finfo);
                warnings =
                  (if err \<noteq> None
                   then [''error while looking up namespace pid, namespace pid matching will not work'']
                   else []);
                m = m(''current_pid_ns_id'' \<mapsto> AnyUint32 npid)
            in (Some m, warnings)))"

definition GoProbes :: "Tracer \<Rightarrow> (string \<rightharpoonup> FunctionPrograms) option" where
  "GoProbes p = None"

definition KProbes :: "Tracer \<Rightarrow> (string \<rightharpoonup> FunctionPrograms)" where
  "KProbes p =
     (let kprobes =
        [''sys_accept'' \<mapsto>
           \<lparr>Required = True, Start = None, End = KretprobeSysAccept4 (bpfObjects p)\<rparr>,
         ''sys_accept4'' \<mapsto>
           \<lparr>Required = True, Start = None, End = KretprobeSysAccept4 (bpfObjects p)\<rparr>,
         ''sock_alloc'' \<mapsto>
           \<lparr>Required = True, Start = None, End = KretprobeSockAlloc (bpfObjects p)\<rparr>,
         ''tcp_rcv_established'' \<mapsto>
           \<lparr>Required = True, Start = KprobeTcpRcvEstablished (bpfObjects p), End = None\<rparr>,
         ''sys_connect'' \<mapsto>
           \<lparr>Required = True, Start = None, End = KretprobeSysConnect (bpfObjects p)\<rparr>,
         ''tcp_connect'' \<mapsto>
           \<lparr>Required = True, Start = KprobeTcpConnect (bpfObjects p), End = None\<rparr>]
      in if SystemWide (Cfg p)
         then kprobes
           (''sys_exit'' \<mapsto>
              \<lparr>Required = True, Start = KprobeSysExit (bpfObjects p), End = None\<rparr>,
            ''sys_exit_group'' \<mapsto>
              \<lparr>Required = True, Start = KprobeSysExit (bpfObjects p), End = None\<rparr>)
         else kprobes)"

definition SocketFilters :: "Tracer \<Rightarrow> program option list" where
  "SocketFilters p = [SocketHttpFilter (bpfObjects p)]"

section \<open>Sequences of resolve operations\<close>

text \<open>
  A run resolves one pid after the other, each in the environment and with the tracer
  (hence with the dead-process table) of its moment.
\<close>

fun resolve_seq :: "(env \<times> Tracer \<times> uint32) list \<Rightarrow> state \<Rightarrow> state option" where
  "resolve_seq [] st = Some st"
| "resolve_seq ((e, p, pid) # ops) st =
     (case serviceName e p pid st of
        None \<Rightarrow> None
      | Some (name, st') \<Rightarrow> resolve_seq ops st')"

definition cache_keys :: "state \<Rightarrow> uint32 list" where
  "cache_keys st = map fst (items (activePids st))"

section \<open>Concrete inputs\<close>

text \<open>The inputs at which the theorems below are evaluated.\<close>

definition ev_GET :: BPFHTTPInfo where
  "ev_GET =
     \<lparr>ConnInfo = \<lparr>S_addr = replicate 16 NUL, D_addr = replicate 16 NUL\<rparr>, Pid = 7,
      Buf = ''GET /foo HTTP/1.1'' @ [CHR 0x0D, CHR 0x0A] @ replicate 5 NUL\<rparr>"

definition ev_one_space :: BPFHTTPInfo where
  "ev_one_space =
     \<lparr>ConnInfo = \<lparr>S_addr = replicate 16 NUL, D_addr = replicate 16 NUL\<rparr>, Pid = 7,
      Buf = ''GET /foo'' @ replicate 4 NUL\<rparr>"

definition ev_no_space :: BPFHTTPInfo where
  "ev_no_space =
     \<lparr>ConnInfo = \<lparr>S_addr = replicate 16 NUL, D_addr = replicate 16 NUL\<rparr>, Pid = 7,
      Buf = ''GET'' @ replicate 5 NUL\<rparr>"

definition ev_NUL :: BPFHTTPInfo where
  "ev_NUL =
     \<lparr>ConnInfo = \<lparr>S_addr = replicate 16 NUL, D_addr = replicate 16 NUL\<rparr>, Pid = 7,
      Buf = ''GE'' @ [NUL] @ ''T /a'' @ [NUL] @ ''b c''\<rparr>"

text \<open>
  A stand-in for \<open>strings.TrimSpace\<close> on ASCII input: it cuts the leading and trailing
  bytes that Go's \<open>asciiSpace\<close> table marks, which is what \<open>TrimSpace\<close> does when every
  byte is below 0x80.
\<close>

definition asciiSpace :: "char \<Rightarrow> bool" where
  "asciiSpace c = (c \<in> set [CHR 0x09, CHR 0x0A, CHR 0x0B, CHR 0x0C, CHR 0x0D, CHR '' ''])"

definition TrimSpace_ascii :: "string \<Rightarrow> string" where
  "TrimSpace_ascii s = rev (dropWhile asciiSpace (rev (dropWhile asciiSpace s)))"

text \<open>A stand-in for \<open>net.IP.String\<close>, right on the unspecified address.\<close>

definition IP_String_zero :: "string \<Rightarrow> string" where
  "IP_String_zero ip = (if ip = replicate 16 NUL then ''::'' else ''?'')"

text \<open>
  Two moments of one machine.  In \<open>env_live\<close> process 7 runs as nginx and the namespace
  lookup works; in \<open>env_gone\<close> no process is left and the namespace lookup fails.
\<close>

definition env_live :: env where
  "env_live =
     \<lparr>BufLen = 24, IP_String = IP_String_zero, TrimSpace = TrimSpace_ascii,
      Stat = (\<lambda>path. if path = ''/proc/7/comm'' then None else Some ErrNotExist),
      ReadFile = (\<lambda>path. if path = ''/proc/7/comm'' then (''nginx'' @ [CHR 0x0A], None)
                          else ('''', Some ErrNotExist)),
      findNamespace = (\<lambda>pid. (4026531836, None))\<rparr>"

definition env_gone :: env where
  "env_gone =
     \<lparr>BufLen = 24, IP_String = IP_String_zero, TrimSpace = TrimSpace_ascii,
      Stat = (\<lambda>path. Some ErrNotExist),
      ReadFile = (\<lambda>path. ('''', Some ErrNotExist)),
      findNamespace = (\<lambda>pid. (0, Some ErrOther))\<rparr>"

text \<open>
  Tracers with every program loaded: in system-wide mode with an empty dead-process
  table, in system-wide mode with a snapshot for pid 9, and in single-target mode.
\<close>

definition objs :: bpfObjects where
  "objs =
     \<lparr>KprobeSysExit = Some 1, KprobeTcpConnect = Some 2, KprobeTcpRcvEstablished = Some 3,
      KretprobeSockAlloc = Some 4, KretprobeSysAccept4 = Some 5, KretprobeSysConnect = Some 6,
      SocketHttpFilter = Some 7, DeadPids = Map.empty\<rparr>"

definition tr_sys :: Tracer where
  "tr_sys = \<lparr>Cfg = \<lparr>SystemWide = True, BpfDebug = False\<rparr>, bpfObjects = objs\<rparr>"

definition snapshot_9 :: string where
  "snapshot_9 = ''ab '' @ replicate 13 NUL"

definition tr_dead :: Tracer where
  "tr_dead =
     \<lparr>Cfg = \<lparr>SystemWide = True, BpfDebug = False\<rparr>,
      bpfObjects = objs\<lparr>DeadPids := [9 \<mapsto> snapshot_9]\<rparr>\<rparr>"

definition tr_single :: Tracer where
  "tr_single = \<lparr>Cfg = \<lparr>SystemWide = False, BpfDebug = False\<rparr>, bpfObjects = objs\<rparr>"

text \<open>A full record of capacity 24 from pid 7, and a truncated one.\<close>

definition raw_GET :: string where
  "raw_GET =
     replicate 16 NUL @ replicate 16 NUL @ [CHR 0x07, NUL, NUL, NUL] @
     ''GET /foo HTTP/1.1'' @ [CHR 0x0D, CHR 0x0A] @ replicate 5 NUL"

definition raw_short :: string where
  "raw_short = replicate 16 NUL @ replicate 16 NUL @ [CHR 0x07, NUL, NUL, NUL] @ ''GET /foo''"

text \<open>The state after pid 7 was resolved while the process ran.\<close>

definition st_after_7 :: state where
  "st_after_7 =
     \<lparr>activePids = \<lparr>capacity = 64, items = [(7, ''nginx'')]\<rparr>,
      io_log = [IoStat ''/proc/7/comm'', IoReadFile ''/proc/7/comm'']\<rparr>"

text \<open>
  Following the spec's words for the dead-process snapshot, to compare with what
  \<open>commNameOfDeadPid\<close> returns: the snapshot with its trailing padding (zero bytes) and
  white space trimmed.
\<close>

definition spec_trimmed_snapshot :: "string \<Rightarrow> string" where
  "spec_trimmed_snapshot s = rev (dropWhile (\<lambda>c. c = NUL \<or> asciiSpace c) (rev s))"

text \<open>The state after pid 7 was resolved when no source knew it.\<close>

definition st_unknown_7 :: state where
  "st_unknown_7 =
     \<lparr>activePids = \<lparr>capacity = 64, items = [(7, '''')]\<rparr>,
      io_log = [IoStat ''/proc/7/comm'', IoDeadLookup 7]\<rparr>"

text \<open>The target process of the single-target tracer.\<close>

definition finfo_1234 :: FileInfo where
  "finfo_1234 = \<lparr>FileInfo_Pid = 1234\<rparr>"

text \<open>
  A run that fills the cache with the pids 1 to 64, resolves pid 1 again and then the
  new pid 65, and the keys of the cache it should leave, the most recently used first.
\<close>

definition pids_66 :: "uint32 list" where
  "pids_66 =
    [1, 2, 3, 4, 5, 6, 7, 8, 9, 10, 11, 12, 13, 14, 15, 16, 17, 18, 19, 20, 21, 22, 23,
     24, 25, 26, 27, 28, 29, 30, 31, 32, 33, 34, 35, 36, 37, 38, 39, 40, 41, 42, 43,
     44, 45, 46, 47, 48, 49, 50, 51, 52, 53, 54, 55, 56, 57, 58, 59, 60, 61, 62, 63,
     64, 1, 65]"

definition ops_66 :: "(env \<times> Tracer \<times> uint32) list" where
  "ops_66 = map (\<lambda>pid. (env_gone, tr_sys, pid)) pids_66"

definition keys_after_66 :: "uint32 list" where
  "keys_after_66 =
    [65, 1, 64, 63, 62, 61, 60, 59, 58, 57, 56, 55, 54, 53, 52, 51, 50, 49, 48, 47, 46,
     45, 44, 43, 42, 41, 40, 39, 38, 37, 36, 35, 34, 33, 32, 31, 30, 29, 28, 27, 26,
     25, 24, 23, 22, 21, 20, 19, 18, 17, 16, 15, 14, 13, 12, 11, 10, 9, 8, 7, 6, 5, 4, 3]"

text \<open>
  The moment at which process 9 exits between the two file system calls: \<open>os.Stat\<close> still
  finds its file, \<open>os.ReadFile\<close> no longer does.
\<close>

definition env_race :: env where
  "env_race =
     \<lparr>BufLen = 24, IP_String = IP_String_zero, TrimSpace = TrimSpace_ascii,
      Stat = (\<lambda>path. None),
      ReadFile = (\<lambda>path. ('''', Some ErrNotExist)),
      findNamespace = (\<lambda>pid. (0, Some ErrOther))\<rparr>"

section \<open>Properties of the extraction\<close>

lemma strings_Index_absent:
  "c \<notin> set s \<Longrightarrow> strings_Index s [c] = - 1"
  by (induction s) auto

lemma strings_Index_first:
  "c \<notin> set m \<Longrightarrow> strings_Index (m @ c # r) [c] = int (length m)"
  by (induction m) auto

lemma method_no_space:
  "CHR '' '' \<notin> set (Buf ev) \<Longrightarrow> method_of ev = Some ''''"
  by (simp add: method_of_def strings_Index_absent)

lemma url_no_space:
  "CHR '' '' \<notin> set (Buf ev) \<Longrightarrow> url ev = Some ''''"
  by (simp add: url_def strings_Index_absent)

lemma method_first_space:
  "Buf ev = m @ CHR '' '' # rest \<Longrightarrow> CHR '' '' \<notin> set m \<Longrightarrow> method_of ev = Some m"
  by (simp add: method_of_def strings_Index_first slice_def)

lemma nat_index_succ: "nat (int n + 1) = Suc n"
  by simp

lemma slice_after_first:
  "slice (m @ c # r) (int (length m) + 1) (int (length (m @ c # r))) = Some r"
  by (simp add: slice_def nat_index_succ del: of_nat_Suc)

lemma slice_between:
  "slice (m @ c # u @ r) (int (length m) + 1) (int (length u) + int (length m) + 1) = Some u"
  by (simp add: slice_def nat_index_succ)

lemma url_no_second_space:
  "Buf ev = m @ CHR '' '' # rest \<Longrightarrow> CHR '' '' \<notin> set m \<Longrightarrow> CHR '' '' \<notin> set rest
    \<Longrightarrow> url ev = Some ''''"
  using slice_after_first [of m "CHR '' ''" rest]
  by (simp add: url_def Let_def strings_Index_first strings_Index_absent del: of_nat_Suc)

lemma url_between_spaces:
  "Buf ev = m @ CHR '' '' # u @ CHR '' '' # t \<Longrightarrow> CHR '' '' \<notin> set m \<Longrightarrow> CHR '' '' \<notin> set u
    \<Longrightarrow> url ev = Some u"
  using slice_after_first [of m "CHR '' ''" "u @ CHR '' '' # t"]
        slice_between [of m "CHR '' ''" u "CHR '' '' # t"]
  by (simp add: url_def Let_def strings_Index_first del: of_nat_Suc)

lemma strings_Index_char:
  "strings_Index s [c] = (if c \<in> set s then int (length (takeWhile (\<lambda>x. x \<noteq> c) s)) else - 1)"
  by (induction s) auto

lemma bytes_IndexByte_char:
  "bytes_IndexByte s c = (if c \<in> set s then int (length (takeWhile (\<lambda>x. x \<noteq> c) s)) else - 1)"
  by (induction s) auto


lemma slice_prefix_takeWhile:
  "slice s 0 (int (length (takeWhile P s))) = Some (takeWhile P s)"
proof -
  have "take (length (takeWhile P s)) s = takeWhile P s"
    by (rule takeWhile_eq_take [symmetric])
  then show ?thesis
    by (simp add: slice_def length_takeWhile_le)
qed

lemma slice_whole: "slice s 0 (int (length s)) = Some s"
  by (simp add: slice_def)

lemma takeWhile_absent: "c \<notin> set s \<Longrightarrow> takeWhile (\<lambda>x. x \<noteq> c) s = s"
  by (induction s) auto

lemma cstr_takeWhile: "cstr s = Some (takeWhile (\<lambda>x. x \<noteq> NUL) s)"
proof (cases "NUL \<in> set s")
  case True
  then show ?thesis
    by (simp add: cstr_def bytes_IndexByte_char slice_prefix_takeWhile)
next
  case False
  then show ?thesis
    by (simp add: cstr_def bytes_IndexByte_char slice_whole takeWhile_absent)
qed

lemma method_takeWhile:
  "method_of ev = Some (if CHR '' '' \<in> set (Buf ev) then takeWhile (\<lambda>x. x \<noteq> CHR '' '') (Buf ev) else [])"
  by (simp add: method_of_def strings_Index_char slice_prefix_takeWhile)

lemma method_total: "\<exists>m. method_of ev = Some m"
  by (simp add: method_takeWhile)

lemma url_total: "\<exists>u. url ev = Some u"
proof (cases "CHR '' '' \<in> set (Buf ev)")
  case False
  then show ?thesis by (simp add: url_no_space)
next
  case True
  then obtain m r where buf: "Buf ev = m @ CHR '' '' # r" and m: "CHR '' '' \<notin> set m"
    by (meson split_list_first)
  show ?thesis
  proof (cases "CHR '' '' \<in> set r")
    case False
    with buf m show ?thesis using url_no_second_space by blast
  next
    case True
    then obtain u t where "r = u @ CHR '' '' # t" and "CHR '' '' \<notin> set u"
      by (meson split_list_first)
    with buf m show ?thesis using url_between_spaces by blast
  qed
qed

lemma commNameOfDeadPid_total:
  "\<exists>n. commNameOfDeadPid p pid st = Some (n, st\<lparr>io_log := io_log st @ [IoDeadLookup pid]\<rparr>)"
  by (simp add: commNameOfDeadPid_def Lookup_def cstr_takeWhile split: option.splits)

lemma commName_total: "\<exists>n st'. commName e p pid st = Some (n, st')"
proof (cases "os_IsNotExist (Stat e (procPath pid))")
  case True
  then show ?thesis
    using commNameOfDeadPid_total [of p pid "st\<lparr>io_log := io_log st @ [IoStat (procPath pid)]\<rparr>"]
    by (auto simp: commName_def Let_def)
next
  case False
  obtain name err where rf: "ReadFile e (procPath pid) = (name, err)"
    by (cases "ReadFile e (procPath pid)")
  show ?thesis
  proof (cases err)
    case None
    with False rf show ?thesis by (simp add: commName_def Let_def)
  next
    case (Some a)
    with False rf show ?thesis
      using commNameOfDeadPid_total [of p pid
          "st\<lparr>io_log := io_log st @ [IoStat (procPath pid), IoReadFile (procPath pid)]\<rparr>"]
      by (auto simp: commName_def Let_def)
  qed
qed

lemma serviceName_total: "\<exists>n st'. serviceName e p pid st = Some (n, st')"
proof -
  obtain cached ok c where g: "lru_Get (activePids st) pid = ((cached, ok), c)"
    by (metis surj_pair)
  obtain n st' where "commName e p pid (st\<lparr>activePids := c\<rparr>) = Some (n, st')"
    using commName_total by blast
  with g show ?thesis
    by (simp add: serviceName_def Let_def)
qed

section \<open>Extraction and decoding\<close>

text \<open>
  C2.  Method and URL extraction on any buffer: with no space in the buffer, both are
  empty and nothing fails; otherwise the method is what precedes the first space, and the
  URL is empty when no second space follows, and is what lies strictly between the first
  and the second space when one does.
\<close>

theorem C2_method_url_extraction:
  "(CHR '' '' \<notin> set (Buf ev) \<longrightarrow> method_of ev = Some '''' \<and> url ev = Some '''') \<and>
   (\<forall>m rest. Buf ev = m @ CHR '' '' # rest \<and> CHR '' '' \<notin> set m \<longrightarrow>
      method_of ev = Some m \<and>
      (CHR '' '' \<notin> set rest \<longrightarrow> url ev = Some '''') \<and>
      (\<forall>u t. rest = u @ CHR '' '' # t \<and> CHR '' '' \<notin> set u \<longrightarrow> url ev = Some u))"
proof (intro conjI allI impI)
  assume "CHR '' '' \<notin> set (Buf ev)"
  then show "method_of ev = Some ''''" by (rule method_no_space)
next
  assume "CHR '' '' \<notin> set (Buf ev)"
  then show "url ev = Some ''''" by (rule url_no_space)
next
  fix m rest
  assume "Buf ev = m @ CHR '' '' # rest \<and> CHR '' '' \<notin> set m"
  then show "method_of ev = Some m" by (simp add: method_first_space)
next
  fix m rest
  assume "Buf ev = m @ CHR '' '' # rest \<and> CHR '' '' \<notin> set m" and "CHR '' '' \<notin> set rest"
  then show "url ev = Some ''''" by (simp add: url_no_second_space)
next
  fix m rest u t
  assume "Buf ev = m @ CHR '' '' # rest \<and> CHR '' '' \<notin> set m"
    and "rest = u @ CHR '' '' # t \<and> CHR '' '' \<notin> set u"
  then show "url ev = Some u" by (simp add: url_between_spaces)
qed

theorem C2_method_url_extraction_witness:
  "method_of ev_GET = Some ''GET'' \<and> url ev_GET = Some ''/foo'' \<and>
   method_of ev_one_space = Some ''GET'' \<and> url ev_one_space = Some '''' \<and>
   method_of ev_no_space = Some '''' \<and> url ev_no_space = Some ''''"
proof -
  have a: "Buf ev_GET = ''GET'' @ CHR '' '' # (''/foo'' @ CHR '' '' #
             (''HTTP/1.1'' @ [CHR 0x0D, CHR 0x0A] @ replicate 5 NUL)) \<and> CHR '' '' \<notin> set ''GET''"
    by (simp add: ev_GET_def)
  have a': "''/foo'' @ CHR '' '' # (''HTTP/1.1'' @ [CHR 0x0D, CHR 0x0A] @ replicate 5 NUL)
            = ''/foo'' @ CHR '' '' # (''HTTP/1.1'' @ [CHR 0x0D, CHR 0x0A] @ replicate 5 NUL)
            \<and> CHR '' '' \<notin> set ''/foo''"
    by simp
  have b: "Buf ev_one_space = ''GET'' @ CHR '' '' # (''/foo'' @ replicate 4 NUL)
            \<and> CHR '' '' \<notin> set ''GET''"
    by (simp add: ev_one_space_def)
  have b': "CHR '' '' \<notin> set (''/foo'' @ replicate 4 NUL)"
    by simp
  have c: "CHR '' '' \<notin> set (Buf ev_no_space)"
    by (simp add: ev_no_space_def)
  note A = C2_method_url_extraction [of ev_GET, THEN conjunct2, rule_format, OF a]
  note B = C2_method_url_extraction [of ev_one_space, THEN conjunct2, rule_format, OF b]
  note C = C2_method_url_extraction [of ev_no_space, THEN conjunct1, rule_format, OF c]
  from A have 1: "method_of ev_GET = Some ''GET''" by blast
  from A a' have 2: "url ev_GET = Some ''/foo''" by blast
  from B have 3: "method_of ev_one_space = Some ''GET''" by blast
  from B b' have 4: "url ev_one_space = Some ''''" by blast
  from 1 2 3 4 C show ?thesis by blast
qed

text \<open>
  C10.  The scan for spaces does not stop at a zero byte: a space that follows an
  embedded NUL is the delimiter, and the method and the URL that are returned hold the
  NUL bytes passed on the way.
\<close>

theorem C10_scan_passes_NUL:
  "(\<forall>a b r. Buf ev = a @ NUL # b @ CHR '' '' # r \<and> CHR '' '' \<notin> set a \<and> CHR '' '' \<notin> set b \<longrightarrow>
      method_of ev = Some (a @ NUL # b)) \<and>
   (\<forall>m c d t. Buf ev = m @ CHR '' '' # c @ NUL # d @ CHR '' '' # t \<and>
        CHR '' '' \<notin> set m \<and> CHR '' '' \<notin> set c \<and> CHR '' '' \<notin> set d \<longrightarrow>
      url ev = Some (c @ NUL # d))"
proof (intro conjI allI impI)
  fix a b r
  assume h: "Buf ev = a @ NUL # b @ CHR '' '' # r \<and> CHR '' '' \<notin> set a \<and> CHR '' '' \<notin> set b"
  then have "Buf ev = (a @ NUL # b) @ CHR '' '' # r" and "CHR '' '' \<notin> set (a @ NUL # b)"
    by simp_all
  then show "method_of ev = Some (a @ NUL # b)" by (rule method_first_space)
next
  fix m c d t
  assume h: "Buf ev = m @ CHR '' '' # c @ NUL # d @ CHR '' '' # t \<and>
        CHR '' '' \<notin> set m \<and> CHR '' '' \<notin> set c \<and> CHR '' '' \<notin> set d"
  then have "Buf ev = m @ CHR '' '' # (c @ NUL # d) @ CHR '' '' # t" and "CHR '' '' \<notin> set m"
    and "CHR '' '' \<notin> set (c @ NUL # d)"
    by simp_all
  then show "url ev = Some (c @ NUL # d)" by (rule url_between_spaces)
qed

theorem C10_scan_passes_NUL_witness:
  "method_of ev_NUL = Some (''GE'' @ NUL # ''T'') \<and> url ev_NUL = Some (''/a'' @ NUL # ''b'')"
proof -
  have a: "Buf ev_NUL = ''GE'' @ NUL # ''T'' @ CHR '' '' # (''/a'' @ NUL # ''b c'') \<and>
           CHR '' '' \<notin> set ''GE'' \<and> CHR '' '' \<notin> set ''T''"
    by (simp add: ev_NUL_def)
  have b: "Buf ev_NUL = (''GE'' @ NUL # ''T'') @ CHR '' '' # ''/a'' @ NUL # ''b'' @ CHR '' '' # ''c'' \<and>
           CHR '' '' \<notin> set (''GE'' @ NUL # ''T'') \<and> CHR '' '' \<notin> set ''/a'' \<and> CHR '' '' \<notin> set ''b''"
    by (simp add: ev_NUL_def)
  from C10_scan_passes_NUL [of ev_NUL, THEN conjunct1, rule_format, OF a]
       C10_scan_passes_NUL [of ev_NUL, THEN conjunct2, rule_format, OF b]
  show ?thesis by simp
qed

lemma binary_Read_short:
  "length raw < RawSize n \<Longrightarrow>
   binary_Read n raw = (zero_BPFHTTPInfo n, Some (if raw = [] then EOF else ErrUnexpectedEOF))"
  by (simp add: binary_Read_def)

lemma binary_Read_full:
  "RawSize n \<le> length raw \<Longrightarrow> snd (binary_Read n raw) = None"
  by (simp add: binary_Read_def)

lemma toRequestTrace_short:
  assumes "length raw < RawSize (BufLen e)"
  shows "toRequestTrace e p raw st =
         Some ((zero_HTTPInfo (BufLen e), Some (if raw = [] then EOF else ErrUnexpectedEOF)), st)"
  using assms by (simp add: toRequestTrace_def binary_Read_short)

lemma toRequestTrace_full:
  assumes "RawSize (BufLen e) \<le> length raw"
  shows "\<exists>r st'. toRequestTrace e p raw st = Some ((r, None), st')"
proof -
  obtain ev where rd: "binary_Read (BufLen e) raw = (ev, None)"
    using binary_Read_full [OF assms] by (metis prod.collapse)
  obtain u where u: "url ev = Some u" using url_total by blast
  obtain m where m: "method_of ev = Some m" using method_total by blast
  obtain n st' where s: "serviceName e p (Pid ev) st = Some (n, st')"
    using serviceName_total by blast
  obtain src tgt where h: "hostInfo e ev = (src, tgt)" by (cases "hostInfo e ev")
  show ?thesis
    by (simp add: toRequestTrace_def rd u m s h Let_def)
qed

text \<open>
  C1.  On every input \<open>toRequestTrace\<close> returns (it does not panic), and it returns without
  an error exactly when the input is at least as long as the fixed size of the raw
  event.  On a shorter input it returns the decode error of \<open>binary.Read\<close> together with
  the zero value of \<open>HTTPInfo\<close>, which holds nothing of the input, and it leaves the state
  as it was.
\<close>

theorem C1_decode_succeeds_iff_long_enough:
  "\<exists>r err st'. toRequestTrace e p raw st = Some ((r, err), st') \<and>
     ((err = None) = (RawSize (BufLen e) \<le> length raw)) \<and>
     (length raw < RawSize (BufLen e) \<longrightarrow>
        r = zero_HTTPInfo (BufLen e) \<and> st' = st \<and>
        err = Some (if raw = [] then EOF else ErrUnexpectedEOF))"
proof (cases "length raw < RawSize (BufLen e)")
  case True
  then show ?thesis using toRequestTrace_short [OF True, of p st] by simp
next
  case False
  then have "RawSize (BufLen e) \<le> length raw" by simp
  from toRequestTrace_full [OF this, of p st] False show ?thesis by auto
qed

lemma procPath_7: "procPath 7 = ''/proc/7/comm''"
  by code_simp

lemma procPath_9: "procPath 9 = ''/proc/9/comm''"
  by code_simp

lemma binary_Read_raw_GET: "binary_Read 24 raw_GET = (ev_GET, None)"
  by (simp add: binary_Read_def raw_GET_def ev_GET_def RawSize_def le_uint32_def)

lemma url_ev_GET: "url ev_GET = Some ''/foo''"
proof -
  have "Buf ev_GET = ''GET'' @ CHR '' '' # ''/foo'' @ CHR '' '' #
          (''HTTP/1.1'' @ [CHR 0x0D, CHR 0x0A] @ replicate 5 NUL)"
    by (simp add: ev_GET_def)
  then show ?thesis by (rule url_between_spaces) simp_all
qed

lemma method_ev_GET: "method_of ev_GET = Some ''GET''"
proof -
  have "Buf ev_GET = ''GET'' @ CHR '' '' #
          (''/foo HTTP/1.1'' @ [CHR 0x0D, CHR 0x0A] @ replicate 5 NUL)"
    by (simp add: ev_GET_def)
  then show ?thesis by (rule method_first_space) simp
qed

lemma hostInfo_ev_GET: "hostInfo env_live ev_GET = (''::'', ''::'')"
  by (simp add: hostInfo_def ev_GET_def env_live_def go_copy_def IP_String_zero_def)

lemma TrimSpace_nginx: "TrimSpace_ascii (''nginx'' @ [CHR 0x0A]) = ''nginx''"
  by (simp add: TrimSpace_ascii_def asciiSpace_def)

lemma commName_live_7:
  "commName env_live p 7 st =
   Some (''nginx'', st\<lparr>io_log := io_log st @ [IoStat ''/proc/7/comm'', IoReadFile ''/proc/7/comm'']\<rparr>)"
  by (simp add: commName_def procPath_7 env_live_def os_IsNotExist_def Let_def
      TrimSpace_ascii_def asciiSpace_def)

lemma serviceName_live_7:
  "serviceName env_live tr_sys 7 init_state =
   Some (''nginx'', \<lparr>activePids = \<lparr>capacity = 64, items = [(7, ''nginx'')]\<rparr>,
            io_log = [IoStat ''/proc/7/comm'', IoReadFile ''/proc/7/comm'']\<rparr>)"
  by (simp add: serviceName_def commName_live_7 init_state_def lru_New_def lru_Get_def lru_Add_def)

lemma toRequestTrace_raw_GET:
  "toRequestTrace env_live tr_sys raw_GET init_state =
     Some ((\<lparr>BPFHTTPInfo = ev_GET, Method = ''GET'', URL = ''/foo'', Comm = ''nginx'',
              Host = ''::'', Peer = ''::''\<rparr>, None),
           \<lparr>activePids = \<lparr>capacity = 64, items = [(7, ''nginx'')]\<rparr>,
            io_log = [IoStat ''/proc/7/comm'', IoReadFile ''/proc/7/comm'']\<rparr>)"
proof -
  have bl: "BufLen env_live = 24" by (simp add: env_live_def)
  have pid: "Pid ev_GET = 7" by (simp add: ev_GET_def)
  have sw: "SystemWide (Cfg tr_sys)" by (simp add: tr_sys_def)
  show ?thesis
    by (simp add: toRequestTrace_def bl binary_Read_raw_GET hostInfo_ev_GET url_ev_GET
        method_ev_GET pid sw serviceName_live_7)
qed

theorem C1_decode_succeeds_iff_long_enough_witness:
  "length raw_short < RawSize (BufLen env_live) \<and>
   toRequestTrace env_live tr_sys raw_short init_state =
     Some ((zero_HTTPInfo 24, Some ErrUnexpectedEOF), init_state) \<and>
   RawSize (BufLen env_live) \<le> length raw_GET \<and>
   toRequestTrace env_live tr_sys raw_GET init_state =
     Some ((\<lparr>BPFHTTPInfo = ev_GET, Method = ''GET'', URL = ''/foo'', Comm = ''nginx'',
              Host = ''::'', Peer = ''::''\<rparr>, None),
           \<lparr>activePids = \<lparr>capacity = 64, items = [(7, ''nginx'')]\<rparr>,
            io_log = [IoStat ''/proc/7/comm'', IoReadFile ''/proc/7/comm'']\<rparr>)"
proof -
  have bl: "BufLen env_live = 24"
    by (simp add: env_live_def)
  have len: "length raw_short < RawSize (BufLen env_live)"
    by (simp add: bl raw_short_def RawSize_def)
  have ne: "raw_short \<noteq> []"
    by (simp add: raw_short_def)
  from C1_decode_succeeds_iff_long_enough [of env_live tr_sys raw_short init_state] len ne bl
  have short: "toRequestTrace env_live tr_sys raw_short init_state =
     Some ((zero_HTTPInfo 24, Some ErrUnexpectedEOF), init_state)"
    by auto
  have len': "RawSize (BufLen env_live) \<le> length raw_GET"
    by (simp add: bl raw_GET_def RawSize_def)
  from len short len' toRequestTrace_raw_GET show ?thesis by blast
qed

section \<open>Properties of the resolver\<close>

lemma map_of_None_keys: "(map_of xs k = None) = (k \<notin> set (map fst xs))"
  by (simp add: map_of_eq_None_iff)

lemma lru_Get_miss:
  "pid \<notin> set (cache_keys st) \<Longrightarrow> lru_Get (activePids st) pid = (('''', False), activePids st)"
proof -
  assume "pid \<notin> set (cache_keys st)"
  then have "map_of (items (activePids st)) pid = None"
    by (simp add: cache_keys_def map_of_eq_None_iff)
  then show ?thesis by (simp add: lru_Get_def)
qed

lemma lru_Get_hit:
  "map_of (items c) pid = Some v \<Longrightarrow>
   lru_Get c pid = ((v, True), c\<lparr>items := (pid, v) # filter (\<lambda>kv. fst kv \<noteq> pid) (items c)\<rparr>)"
  by (simp add: lru_Get_def)

lemma commNameOfDeadPid_absent:
  "DeadPids (bpfObjects p) pid = None \<Longrightarrow>
   commNameOfDeadPid p pid st = Some ('''', st\<lparr>io_log := io_log st @ [IoDeadLookup pid]\<rparr>)"
  by (simp add: commNameOfDeadPid_def Lookup_def)

lemma commNameOfDeadPid_present:
  "DeadPids (bpfObjects p) pid = Some snap \<Longrightarrow>
   commNameOfDeadPid p pid st =
   Some (takeWhile (\<lambda>c. c \<noteq> NUL) snap, st\<lparr>io_log := io_log st @ [IoDeadLookup pid]\<rparr>)"
  by (simp add: commNameOfDeadPid_def Lookup_def cstr_takeWhile)

lemma commName_not_exist:
  "os_IsNotExist (Stat e (procPath pid)) \<Longrightarrow>
   commName e p pid st =
   commNameOfDeadPid p pid (st\<lparr>io_log := io_log st @ [IoStat (procPath pid)]\<rparr>)"
  by (simp add: commName_def Let_def)

lemma commNameOfDeadPid_activePids:
  "commNameOfDeadPid p pid st = Some (n, st') \<Longrightarrow> activePids st' = activePids st"
  using commNameOfDeadPid_total [of p pid st] by auto

lemma commNameOfDeadPid_io_log:
  "commNameOfDeadPid p pid st = Some (n, st') \<Longrightarrow> io_log st' = io_log st @ [IoDeadLookup pid]"
  using commNameOfDeadPid_total [of p pid st] by auto

lemma commName_activePids:
  assumes "commName e p pid st = Some (n, st')"
  shows "activePids st' = activePids st"
proof (cases "os_IsNotExist (Stat e (procPath pid))")
  case True
  with assms show ?thesis
    by (auto simp: commName_not_exist dest: commNameOfDeadPid_activePids)
next
  case False
  obtain name err where rf: "ReadFile e (procPath pid) = (name, err)"
    by (cases "ReadFile e (procPath pid)")
  show ?thesis
  proof (cases err)
    case None
    with False rf assms show ?thesis by (auto simp: commName_def Let_def)
  next
    case (Some a)
    obtain d where "commNameOfDeadPid p pid
          (st\<lparr>io_log := io_log st @ [IoStat (procPath pid), IoReadFile (procPath pid)]\<rparr>) =
        Some (d, st\<lparr>io_log := io_log st @ [IoStat (procPath pid), IoReadFile (procPath pid)]\<rparr>
                  \<lparr>io_log := io_log (st\<lparr>io_log := io_log st @ [IoStat (procPath pid), IoReadFile (procPath pid)]\<rparr>) @ [IoDeadLookup pid]\<rparr>)"
      using commNameOfDeadPid_total by blast
    with Some False rf assms show ?thesis by (auto simp: commName_def Let_def)
  qed
qed

lemma commName_io_log:
  assumes "commName e p pid st = Some (n, st')"
  shows "length (io_log st) < length (io_log st')"
proof (cases "os_IsNotExist (Stat e (procPath pid))")
  case True
  with assms show ?thesis
    by (auto simp: commName_not_exist dest: commNameOfDeadPid_io_log)
next
  case False
  obtain name err where rf: "ReadFile e (procPath pid) = (name, err)"
    by (cases "ReadFile e (procPath pid)")
  show ?thesis
  proof (cases err)
    case None
    with False rf assms show ?thesis by (auto simp: commName_def Let_def)
  next
    case (Some a)
    obtain d where "commNameOfDeadPid p pid
          (st\<lparr>io_log := io_log st @ [IoStat (procPath pid), IoReadFile (procPath pid)]\<rparr>) =
        Some (d, st\<lparr>io_log := io_log st @ [IoStat (procPath pid), IoReadFile (procPath pid)]\<rparr>
                  \<lparr>io_log := io_log (st\<lparr>io_log := io_log st @ [IoStat (procPath pid), IoReadFile (procPath pid)]\<rparr>) @ [IoDeadLookup pid]\<rparr>)"
      using commNameOfDeadPid_total by blast
    with Some False rf assms show ?thesis by (auto simp: commName_def Let_def)
  qed
qed

lemma serviceName_miss:
  assumes "pid \<notin> set (cache_keys st)"
  shows "serviceName e p pid st =
         (case commName e p pid st of
            None \<Rightarrow> None
          | Some (name, st2) \<Rightarrow>
              Some (name, st2\<lparr>activePids := snd (lru_Add (activePids st2) pid name)\<rparr>))"
  by (simp add: serviceName_def lru_Get_miss [OF assms])

lemma serviceName_hit:
  assumes "map_of (items (activePids st)) pid = Some v"
  shows "serviceName e p pid st =
         Some (v, st\<lparr>activePids := (activePids st)
                  \<lparr>items := (pid, v) # filter (\<lambda>kv. fst kv \<noteq> pid) (items (activePids st))\<rparr>\<rparr>)"
  by (simp add: serviceName_def lru_Get_hit [OF assms])

lemma serviceName_neither:
  assumes miss: "pid \<notin> set (cache_keys st)"
    and gone: "os_IsNotExist (Stat e (procPath pid))"
    and dead: "DeadPids (bpfObjects p) pid = None"
  shows "\<exists>st'. serviceName e p pid st = Some ('''', st')"
  by (simp add: serviceName_miss [OF miss] commName_not_exist [OF gone]
      commNameOfDeadPid_absent [OF dead])

lemma serviceName_dead:
  assumes miss: "pid \<notin> set (cache_keys st)"
    and gone: "os_IsNotExist (Stat e (procPath pid))"
    and dead: "DeadPids (bpfObjects p) pid = Some snap"
  shows "\<exists>st'. serviceName e p pid st = Some (takeWhile (\<lambda>c. c \<noteq> NUL) snap, st')"
  by (simp add: serviceName_miss [OF miss] commName_not_exist [OF gone]
      commNameOfDeadPid_present [OF dead])

lemma serviceName_gone_7:
  "serviceName env_gone tr_sys 7 init_state =
   Some ('''', \<lparr>activePids = \<lparr>capacity = 64, items = [(7, '''')]\<rparr>,
                io_log = [IoStat ''/proc/7/comm'', IoDeadLookup 7]\<rparr>)"
proof -
  have miss: "7 \<notin> set (cache_keys init_state)"
    by (simp add: cache_keys_def init_state_def lru_New_def)
  have gone: "os_IsNotExist (Stat env_gone (procPath 7))"
    by (simp add: env_gone_def os_IsNotExist_def)
  have dead: "DeadPids (bpfObjects tr_sys) 7 = None"
    by (simp add: tr_sys_def objs_def)
  have c: "commName env_gone tr_sys 7 init_state =
      Some ('''', init_state\<lparr>io_log := io_log init_state @ [IoStat ''/proc/7/comm'', IoDeadLookup 7]\<rparr>)"
    by (simp add: commName_not_exist [OF gone] commNameOfDeadPid_absent [OF dead] procPath_7)
  show ?thesis
    unfolding serviceName_miss [OF miss] c
    by (simp add: init_state_def lru_New_def lru_Add_def)
qed

text \<open>
  C3 as amended.  \<open>serviceName\<close> returns on every pid, in every environment and state: it
  cannot panic and has no error to return.  When the pid is not in the cache, \<open>os.Stat\<close>
  reports that the process does not exist and the dead-process table has no entry for the
  pid, the name returned is empty.  When the pid is in the cache, the name returned is
  the cached one, whatever the two tables hold.
\<close>

theorem C3_resolve_total:
  "(\<exists>n st'. serviceName e p pid st = Some (n, st')) \<and>
   (pid \<notin> set (cache_keys st) \<and> os_IsNotExist (Stat e (procPath pid)) \<and>
      DeadPids (bpfObjects p) pid = None \<longrightarrow>
        (\<exists>st'. serviceName e p pid st = Some ('''', st'))) \<and>
   (\<forall>v. map_of (items (activePids st)) pid = Some v \<longrightarrow>
        (\<exists>st'. serviceName e p pid st = Some (v, st')))"
  using serviceName_total [of e p pid st] serviceName_neither [of pid st e p]
  by (simp add: serviceName_hit)

theorem C3_resolve_total_witness:
  "7 \<notin> set (cache_keys init_state) \<and> os_IsNotExist (Stat env_gone (procPath 7)) \<and>
   DeadPids (bpfObjects tr_sys) 7 = None \<and>
   map_option fst (serviceName env_gone tr_sys 7 init_state) = Some '''' \<and>
   map_of (items (activePids st_after_7)) 7 = Some ''nginx'' \<and>
   map_option fst (serviceName env_gone tr_sys 7 st_after_7) = Some ''nginx''"
proof -
  have miss: "7 \<notin> set (cache_keys init_state)"
    by (simp add: cache_keys_def init_state_def lru_New_def)
  have gone: "os_IsNotExist (Stat env_gone (procPath 7))"
    by (simp add: env_gone_def os_IsNotExist_def)
  have dead: "DeadPids (bpfObjects tr_sys) 7 = None"
    by (simp add: tr_sys_def objs_def)
  have hit: "map_of (items (activePids st_after_7)) 7 = Some ''nginx''"
    by (simp add: st_after_7_def)
  from C3_resolve_total [of env_gone tr_sys 7 init_state] miss gone dead
  have 1: "map_option fst (serviceName env_gone tr_sys 7 init_state) = Some ''''"
    by auto
  from C3_resolve_total [of env_gone tr_sys 7 st_after_7] hit
  have 2: "map_option fst (serviceName env_gone tr_sys 7 st_after_7) = Some ''nginx''"
    by auto
  from miss gone dead hit 1 2 show ?thesis by blast
qed

text \<open>
  The claim C3 as it is written fails on a pid that was resolved while its process ran:
  once the process is gone and the dead-process table has no entry for it, the name
  returned is still the cached one, not the empty string.
\<close>

theorem C3_resolve_cached_counterexample:
  "resolve_seq [(env_live, tr_sys, 7)] init_state = Some st_after_7 \<and>
   os_IsNotExist (Stat env_gone (procPath 7)) \<and>
   DeadPids (bpfObjects tr_sys) 7 = None \<and>
   serviceName env_gone tr_sys 7 st_after_7 = Some (''nginx'', st_after_7)"
proof -
  have hit: "map_of (items (activePids st_after_7)) 7 = Some ''nginx''"
    by (simp add: st_after_7_def)
  have 1: "serviceName env_gone tr_sys 7 st_after_7 = Some (''nginx'', st_after_7)"
    unfolding serviceName_hit [OF hit] by (simp add: st_after_7_def)
  have 2: "resolve_seq [(env_live, tr_sys, 7)] init_state = Some st_after_7"
    by (simp add: serviceName_live_7 st_after_7_def)
  have 3: "os_IsNotExist (Stat env_gone (procPath 7))"
    by (simp add: env_gone_def os_IsNotExist_def)
  have 4: "DeadPids (bpfObjects tr_sys) 7 = None"
    by (simp add: tr_sys_def objs_def)
  from 1 2 3 4 show ?thesis by blast
qed

lemma serviceName_dead_9:
  "serviceName env_gone tr_dead 9 init_state =
   Some (''ab '', \<lparr>activePids = \<lparr>capacity = 64, items = [(9, ''ab '')]\<rparr>,
                   io_log = [IoStat ''/proc/9/comm'', IoDeadLookup 9]\<rparr>)"
proof -
  have miss: "9 \<notin> set (cache_keys init_state)"
    by (simp add: cache_keys_def init_state_def lru_New_def)
  have gone: "os_IsNotExist (Stat env_gone (procPath 9))"
    by (simp add: env_gone_def os_IsNotExist_def)
  have dead: "DeadPids (bpfObjects tr_dead) 9 = Some snapshot_9"
    by (simp add: tr_dead_def objs_def)
  have tw: "takeWhile (\<lambda>c. c \<noteq> NUL) snapshot_9 = ''ab ''"
    by (simp add: snapshot_9_def)
  have c: "commName env_gone tr_dead 9 init_state =
      Some (''ab '', init_state\<lparr>io_log := io_log init_state @ [IoStat ''/proc/9/comm'', IoDeadLookup 9]\<rparr>)"
    by (simp add: commName_not_exist [OF gone] commNameOfDeadPid_present [OF dead] procPath_9 tw)
  show ?thesis
    unfolding serviceName_miss [OF miss] c
    by (simp add: init_state_def lru_New_def lru_Add_def)
qed

text \<open>
  C4 as amended.  When \<open>os.Stat\<close> reports that the process of a pid does not exist and the
  dead-process table has a snapshot for the pid, \<open>commName\<close> returns the bytes of the
  snapshot that precede its first zero byte (all of them when it has none), and so does
  \<open>serviceName\<close> when the pid is not in the cache.  White space is kept.
\<close>

theorem C4_dead_name_up_to_NUL:
  "os_IsNotExist (Stat e (procPath pid)) \<and> DeadPids (bpfObjects p) pid = Some snap \<longrightarrow>
     (\<exists>st'. commName e p pid st = Some (takeWhile (\<lambda>c. c \<noteq> NUL) snap, st')) \<and>
     (pid \<notin> set (cache_keys st) \<longrightarrow>
        (\<exists>st'. serviceName e p pid st = Some (takeWhile (\<lambda>c. c \<noteq> NUL) snap, st')))"
  using serviceName_dead [of pid st e p snap]
  by (simp add: commName_not_exist commNameOfDeadPid_present)

theorem C4_dead_name_up_to_NUL_witness:
  "os_IsNotExist (Stat env_gone (procPath 9)) \<and>
   DeadPids (bpfObjects tr_dead) 9 = Some (''ab '' @ replicate 13 NUL) \<and>
   9 \<notin> set (cache_keys init_state) \<and>
   map_option fst (commName env_gone tr_dead 9 init_state) = Some ''ab '' \<and>
   map_option fst (serviceName env_gone tr_dead 9 init_state) = Some ''ab ''"
proof -
  have miss: "9 \<notin> set (cache_keys init_state)"
    by (simp add: cache_keys_def init_state_def lru_New_def)
  have gone: "os_IsNotExist (Stat env_gone (procPath 9))"
    by (simp add: env_gone_def os_IsNotExist_def)
  have dead: "DeadPids (bpfObjects tr_dead) 9 = Some (''ab '' @ replicate 13 NUL)"
    by (simp add: tr_dead_def objs_def snapshot_9_def)
  have tw: "takeWhile (\<lambda>c. c \<noteq> NUL) (''ab '' @ replicate 13 NUL) = ''ab ''"
    by simp
  from C4_dead_name_up_to_NUL [of env_gone 9 tr_dead "''ab '' @ replicate 13 NUL" init_state]
    gone dead miss
  have "map_option fst (commName env_gone tr_dead 9 init_state) = Some ''ab '' \<and>
        map_option fst (serviceName env_gone tr_dead 9 init_state) = Some ''ab ''"
    unfolding tw by auto
  with miss gone dead show ?thesis by blast
qed

text \<open>
  The claim C4 as it is written fails on a snapshot whose name ends in a space: the name
  returned keeps the space, while the snapshot with its trailing padding and white space
  trimmed has none.
\<close>

theorem C4_whitespace_kept_counterexample:
  "os_IsNotExist (Stat env_gone (procPath 9)) \<and>
   DeadPids (bpfObjects tr_dead) 9 = Some snapshot_9 \<and>
   length snapshot_9 = 16 \<and>
   map_option fst (serviceName env_gone tr_dead 9 init_state) = Some ''ab '' \<and>
   spec_trimmed_snapshot snapshot_9 = ''ab'' \<and>
   map_option fst (serviceName env_gone tr_dead 9 init_state) \<noteq>
     Some (spec_trimmed_snapshot snapshot_9)"
proof -
  have 1: "os_IsNotExist (Stat env_gone (procPath 9))"
    by (simp add: env_gone_def os_IsNotExist_def)
  have 2: "DeadPids (bpfObjects tr_dead) 9 = Some snapshot_9"
    by (simp add: tr_dead_def objs_def)
  have 3: "length snapshot_9 = 16"
    by (simp add: snapshot_9_def)
  have 4: "map_option fst (serviceName env_gone tr_dead 9 init_state) = Some ''ab ''"
    by (simp add: serviceName_dead_9)
  have 5: "spec_trimmed_snapshot snapshot_9 = ''ab''"
    by code_simp
  have 6: "map_option fst (serviceName env_gone tr_dead 9 init_state) \<noteq>
     Some (spec_trimmed_snapshot snapshot_9)"
    unfolding 4 5 by simp
  from 1 2 3 4 5 6 show ?thesis by blast
qed

text \<open>
  What \<open>commName\<close> does when \<open>os.Stat\<close> finds the file and \<open>os.ReadFile\<close> then fails: the
  dead-process table is consulted, and the name it gives is dropped.
\<close>

lemma commName_ReadFile_error:
  assumes "\<not> os_IsNotExist (Stat e (procPath pid))"
    and "ReadFile e (procPath pid) = (name, Some err)"
  shows "commName e p pid st =
         Some (TrimSpace e name,
               st\<lparr>io_log := io_log st @
                  [IoStat (procPath pid), IoReadFile (procPath pid), IoDeadLookup pid]\<rparr>)"
  using assms commNameOfDeadPid_total [of p pid
      "st\<lparr>io_log := io_log st @ [IoStat (procPath pid), IoReadFile (procPath pid)]\<rparr>"]
  by (auto simp: commName_def Let_def)

text \<open>
  At that moment the snapshot of pid 9 is looked up and the empty name is returned all
  the same.
\<close>

lemma commName_race_drops_dead_name:
  "DeadPids (bpfObjects tr_dead) 9 = Some snapshot_9 \<and>
   commName env_race tr_dead 9 init_state =
     Some ('''', init_state\<lparr>io_log :=
        [IoStat ''/proc/9/comm'', IoReadFile ''/proc/9/comm'', IoDeadLookup 9]\<rparr>)"
proof -
  have 1: "DeadPids (bpfObjects tr_dead) 9 = Some snapshot_9"
    by (simp add: tr_dead_def objs_def)
  have 2: "\<not> os_IsNotExist (Stat env_race (procPath 9))"
    by (simp add: env_race_def os_IsNotExist_def)
  have 3: "ReadFile env_race (procPath 9) = ('''', Some ErrNotExist)"
    by (simp add: env_race_def)
  have 4: "TrimSpace env_race '''' = ''''"
    by (simp add: env_race_def TrimSpace_ascii_def)
  have 5: "io_log init_state = []"
    by (simp add: init_state_def)
  from 1 show ?thesis
    by (simp add: commName_ReadFile_error [OF 2 3] 4 5 procPath_9)
qed

lemma lru_Add_new_items:
  assumes "map_of (items c) k = None"
  shows "items (snd (lru_Add c k v)) =
         (if capacity c \<le> length (items c) then butlast ((k, v) # items c) else (k, v) # items c)"
  using assms by (auto simp: lru_Add_def Let_def)

lemma lru_Add_capacity: "capacity (snd (lru_Add c k v)) = capacity c"
  by (simp add: lru_Add_def Let_def split: option.splits)

lemma lru_Add_new_lookup:
  assumes "map_of (items c) k = None" and "0 < capacity c"
  shows "map_of (items (snd (lru_Add c k v))) k = Some v"
proof (cases "capacity c \<le> length (items c)")
  case True
  with assms(2) have "items c \<noteq> []" by auto
  then have "butlast ((k, v) # items c) = (k, v) # butlast (items c)" by simp
  with True show ?thesis by (simp add: lru_Add_new_items [OF assms(1)])
next
  case False
  then show ?thesis by (simp add: lru_Add_new_items [OF assms(1)])
qed

lemma serviceName_miss_caches:
  assumes miss: "pid \<notin> set (cache_keys st)"
    and cap: "0 < capacity (activePids st)"
    and res: "serviceName e p pid st = Some (n, st1)"
  shows "map_of (items (activePids st1)) pid = Some n \<and>
         length (io_log st) < length (io_log st1)"
proof -
  obtain m st2 where c: "commName e p pid st = Some (m, st2)"
    using commName_total by blast
  from res have n: "n = m"
    and st1: "st1 = st2\<lparr>activePids := snd (lru_Add (activePids st2) pid m)\<rparr>"
    by (auto simp: serviceName_miss [OF miss] c)
  have ap: "activePids st2 = activePids st"
    using c by (rule commName_activePids)
  from miss have none: "map_of (items (activePids st)) pid = None"
    by (simp add: cache_keys_def map_of_eq_None_iff)
  have "map_of (items (snd (lru_Add (activePids st) pid m))) pid = Some m"
    using none cap by (rule lru_Add_new_lookup)
  moreover have "length (io_log st) < length (io_log st2)"
    using c by (rule commName_io_log)
  ultimately show ?thesis by (simp add: n st1 ap)
qed

lemma serviceName_hit_io:
  assumes "map_of (items (activePids st)) pid = Some v"
  shows "\<exists>st'. serviceName e p pid st = Some (v, st') \<and> io_log st' = io_log st"
  by (simp add: serviceName_hit [OF assms])

text \<open>
  C5.  A resolve of a pid that is not in the cache returns a name, whatever it is (the
  empty one too), after at least one call to an underlying source, and the name is in
  the cache under that pid when it returns.  A second resolve of the pid, in any
  environment and with any dead-process table, returns the same name and leaves the log
  of calls to the underlying sources as it was.
\<close>

theorem C5_second_resolve_from_cache:
  "pid \<notin> set (cache_keys st) \<and> capacity (activePids st) = 64 \<longrightarrow>
     (\<exists>n st1. serviceName e p pid st = Some (n, st1) \<and>
        map_of (items (activePids st1)) pid = Some n \<and>
        length (io_log st) < length (io_log st1) \<and>
        (\<forall>e' p'. \<exists>st2. serviceName e' p' pid st1 = Some (n, st2) \<and> io_log st2 = io_log st1))"
proof (intro impI, elim conjE)
  assume miss: "pid \<notin> set (cache_keys st)" and cap: "capacity (activePids st) = 64"
  obtain n st1 where res: "serviceName e p pid st = Some (n, st1)"
    using serviceName_total by blast
  from cap have "0 < capacity (activePids st)" by simp
  from serviceName_miss_caches [OF miss this res]
  have c: "map_of (items (activePids st1)) pid = Some n"
    and l: "length (io_log st) < length (io_log st1)"
    by simp_all
  from res c l serviceName_hit_io [OF c] show
    "\<exists>n st1. serviceName e p pid st = Some (n, st1) \<and>
        map_of (items (activePids st1)) pid = Some n \<and>
        length (io_log st) < length (io_log st1) \<and>
        (\<forall>e' p'. \<exists>st2. serviceName e' p' pid st1 = Some (n, st2) \<and> io_log st2 = io_log st1)"
    by blast
qed

theorem C5_second_resolve_from_cache_witness:
  "7 \<notin> set (cache_keys init_state) \<and> capacity (activePids init_state) = 64 \<and>
   serviceName env_gone tr_sys 7 init_state = Some ([], st_unknown_7) \<and>
   map_option fst (serviceName env_live tr_sys 7 st_unknown_7) = Some [] \<and>
   map_option (\<lambda>r. io_log (snd r)) (serviceName env_live tr_sys 7 st_unknown_7) =
     Some (io_log st_unknown_7)"
proof -
  have miss: "7 \<notin> set (cache_keys init_state)"
    by (simp add: cache_keys_def init_state_def lru_New_def)
  have cap: "capacity (activePids init_state) = 64"
    by (simp add: init_state_def lru_New_def)
  have first: "serviceName env_gone tr_sys 7 init_state = Some ([], st_unknown_7)"
    by (simp add: serviceName_gone_7 st_unknown_7_def)
  from C5_second_resolve_from_cache [of 7 init_state env_gone tr_sys] miss cap first
  have "\<forall>e' p'. \<exists>st2. serviceName e' p' 7 st_unknown_7 = Some ([], st2) \<and>
          io_log st2 = io_log st_unknown_7"
    by auto
  then obtain st2 where "serviceName env_live tr_sys 7 st_unknown_7 = Some ([], st2)"
    and "io_log st2 = io_log st_unknown_7"
    by blast
  then have "map_option fst (serviceName env_live tr_sys 7 st_unknown_7) = Some [] \<and>
    map_option (\<lambda>r. io_log (snd r)) (serviceName env_live tr_sys 7 st_unknown_7) =
      Some (io_log st_unknown_7)"
    by simp
  with miss cap first show ?thesis by blast
qed

section \<open>Properties of the constants and of the probe table\<close>

lemma current_pid_neq: "''current_pid'' \<noteq> ''current_pid_ns_id''"
  by simp

text \<open>
  C7.  In system-wide mode \<open>Constants\<close> returns the nil map and logs nothing.  In
  single-target mode it returns a map whose keys are exactly \<open>current_pid\<close> and
  \<open>current_pid_ns_id\<close>; the first holds the pid of the target, the second the id that
  \<open>findNamespace\<close> returned, also when \<open>findNamespace\<close> returned an error, in which case one
  warning is logged.
\<close>

theorem C7_constants:
  "(SystemWide (Cfg p) \<longrightarrow> Constants e p finfo = (None, [])) \<and>
   (\<not> SystemWide (Cfg p) \<longrightarrow>
      (\<exists>m warnings. Constants e p finfo = (Some m, warnings) \<and>
         dom m = {''current_pid'', ''current_pid_ns_id''} \<and>
         m ''current_pid'' = Some (AnyInt32 (FileInfo_Pid finfo)) \<and>
         m ''current_pid_ns_id'' = Some (AnyUint32 (fst (findNamespace e (FileInfo_Pid finfo)))) \<and>
         length warnings = (if snd (findNamespace e (FileInfo_Pid finfo)) = None then 0 else 1)))"
proof (intro conjI impI)
  assume "SystemWide (Cfg p)"
  then show "Constants e p finfo = (None, [])" by (simp add: Constants_def)
next
  assume single: "\<not> SystemWide (Cfg p)"
  obtain npid err where f: "findNamespace e (FileInfo_Pid finfo) = (npid, err)"
    by (cases "findNamespace e (FileInfo_Pid finfo)")
  let ?m = "[''current_pid'' \<mapsto> AnyInt32 (FileInfo_Pid finfo),
             ''current_pid_ns_id'' \<mapsto> AnyUint32 npid]"
  let ?w = "if err \<noteq> None
            then [''error while looking up namespace pid, namespace pid matching will not work'']
            else []"
  have c: "Constants e p finfo = (Some ?m, ?w)"
    using single by (simp add: Constants_def f)
  have d: "dom ?m = {''current_pid'', ''current_pid_ns_id''}"
    by auto
  have v1: "?m ''current_pid'' = Some (AnyInt32 (FileInfo_Pid finfo))"
    by simp
  have v2: "?m ''current_pid_ns_id'' = Some (AnyUint32 npid)"
    by simp
  have l: "length ?w = (if err = None then 0 else 1)"
    by simp
  from c d v1 v2 l show "\<exists>m warnings. Constants e p finfo = (Some m, warnings) \<and>
         dom m = {''current_pid'', ''current_pid_ns_id''} \<and>
         m ''current_pid'' = Some (AnyInt32 (FileInfo_Pid finfo)) \<and>
         m ''current_pid_ns_id'' = Some (AnyUint32 (fst (findNamespace e (FileInfo_Pid finfo)))) \<and>
         length warnings = (if snd (findNamespace e (FileInfo_Pid finfo)) = None then 0 else 1)"
    unfolding f fst_conv snd_conv by blast
qed

theorem C7_constants_witness:
  "SystemWide (Cfg tr_sys) \<and> Constants env_gone tr_sys finfo_1234 = (None, []) \<and>
   \<not> SystemWide (Cfg tr_single) \<and> findNamespace env_gone 1234 = (0, Some ErrOther) \<and>
   fst (Constants env_gone tr_single finfo_1234) =
     Some [''current_pid'' \<mapsto> AnyInt32 1234, ''current_pid_ns_id'' \<mapsto> AnyUint32 0] \<and>
   length (snd (Constants env_gone tr_single finfo_1234)) = 1"
proof -
  have sw: "SystemWide (Cfg tr_sys)" by (simp add: tr_sys_def)
  have si: "\<not> SystemWide (Cfg tr_single)" by (simp add: tr_single_def)
  have fn: "findNamespace env_gone 1234 = (0, Some ErrOther)" by (simp add: env_gone_def)
  have pid: "FileInfo_Pid finfo_1234 = 1234" by (simp add: finfo_1234_def)
  from C7_constants [of tr_sys env_gone finfo_1234] sw
  have 1: "Constants env_gone tr_sys finfo_1234 = (None, [])" by blast
  from C7_constants [of tr_single env_gone finfo_1234] si
  obtain m warnings where c: "Constants env_gone tr_single finfo_1234 = (Some m, warnings)"
    and d: "dom m = {''current_pid'', ''current_pid_ns_id''}"
    and v1: "m ''current_pid'' = Some (AnyInt32 1234)"
    and v2: "m ''current_pid_ns_id'' = Some (AnyUint32 0)"
    and l: "length warnings = 1"
    unfolding pid fn fst_conv snd_conv by auto
  have "m = [''current_pid'' \<mapsto> AnyInt32 1234, ''current_pid_ns_id'' \<mapsto> AnyUint32 0]"
  proof
    fix k
    show "m k = [''current_pid'' \<mapsto> AnyInt32 1234, ''current_pid_ns_id'' \<mapsto> AnyUint32 0] k"
    proof (cases "k \<in> dom m")
      case True
      with d v1 v2 show ?thesis by auto
    next
      case False
      then have "m k = None" by auto
      moreover from False d have "k \<noteq> ''current_pid''" and "k \<noteq> ''current_pid_ns_id''"
        by auto
      ultimately show ?thesis by simp
    qed
  qed
  with sw si fn 1 c l show ?thesis by simp
qed

text \<open>
  C8 as amended.  In every mode the table declares the probes \<open>sys_accept\<close> and
  \<open>sys_accept4\<close>, each required and each with an exit program only, the same one for both,
  and the probe \<open>sock_alloc\<close>, required, with an exit program only.
\<close>

theorem C8_accept_probes_exit_only:
  "KProbes p ''sys_accept'' =
     Some \<lparr>Required = True, Start = None, End = KretprobeSysAccept4 (bpfObjects p)\<rparr> \<and>
   KProbes p ''sys_accept4'' =
     Some \<lparr>Required = True, Start = None, End = KretprobeSysAccept4 (bpfObjects p)\<rparr> \<and>
   KProbes p ''sock_alloc'' =
     Some \<lparr>Required = True, Start = None, End = KretprobeSockAlloc (bpfObjects p)\<rparr>"
  by (simp add: KProbes_def Let_def)

text \<open>
  The claim C8 as it is written fails: with every program loaded, in either mode, the
  accept probes have no entry program.
\<close>

theorem C8_no_entry_program_counterexample:
  "map_option Start (KProbes tr_sys ''sys_accept'') = Some None \<and>
   map_option Start (KProbes tr_sys ''sys_accept4'') = Some None \<and>
   map_option Start (KProbes tr_single ''sys_accept'') = Some None \<and>
   map_option Start (KProbes tr_single ''sys_accept4'') = Some None \<and>
   KretprobeSysAccept4 (bpfObjects tr_sys) = Some 5"
  by (simp add: KProbes_def Let_def tr_sys_def tr_single_def objs_def)

text \<open>
  C9.  In system-wide mode the table holds the probes \<open>sys_exit\<close> and \<open>sys_exit_group\<close>,
  both required, both started by the program \<open>KprobeSysExit\<close>.  In single-target mode it
  holds neither: its probes are the six of the accept, receive and connect paths, and no
  others.
\<close>

theorem C9_exit_probes_iff_system_wide:
  "(SystemWide (Cfg p) \<longrightarrow>
      KProbes p ''sys_exit'' =
        Some \<lparr>Required = True, Start = KprobeSysExit (bpfObjects p), End = None\<rparr> \<and>
      KProbes p ''sys_exit_group'' =
        Some \<lparr>Required = True, Start = KprobeSysExit (bpfObjects p), End = None\<rparr>) \<and>
   (\<not> SystemWide (Cfg p) \<longrightarrow>
      KProbes p ''sys_exit'' = None \<and> KProbes p ''sys_exit_group'' = None \<and>
      dom (KProbes p) = {''sys_accept'', ''sys_accept4'', ''sock_alloc'',
                         ''tcp_rcv_established'', ''sys_connect'', ''tcp_connect''})"
  by (auto simp: KProbes_def Let_def)

theorem C9_exit_probes_iff_system_wide_witness:
  "SystemWide (Cfg tr_sys) \<and>
   KProbes tr_sys ''sys_exit'' = Some \<lparr>Required = True, Start = Some 1, End = None\<rparr> \<and>
   KProbes tr_sys ''sys_exit_group'' = Some \<lparr>Required = True, Start = Some 1, End = None\<rparr> \<and>
   \<not> SystemWide (Cfg tr_single) \<and>
   KProbes tr_single ''sys_exit'' = None \<and> KProbes tr_single ''sys_exit_group'' = None"
proof -
  have sw: "SystemWide (Cfg tr_sys)" by (simp add: tr_sys_def)
  have si: "\<not> SystemWide (Cfg tr_single)" by (simp add: tr_single_def)
  have ex: "KprobeSysExit (bpfObjects tr_sys) = Some 1" by (simp add: tr_sys_def objs_def)
  from C9_exit_probes_iff_system_wide [of tr_sys] C9_exit_probes_iff_system_wide [of tr_single]
    sw si ex show ?thesis by simp
qed

section \<open>Properties of the cache\<close>

text \<open>The order of recency of a run: its distinct pids, the most recently resolved first.\<close>

lemma remdups_snoc:
  "remdups (ps @ [x]) = filter (\<lambda>y. y \<noteq> x) (remdups ps) @ [x]"
  by (induction ps) auto

lemma recency_snoc:
  "rev (remdups (ps @ [x])) = x # filter (\<lambda>y. y \<noteq> x) (rev (remdups ps))"
  by (simp add: remdups_snoc rev_filter)

lemma take_filter_absent:
  "x \<notin> set (take n L) \<Longrightarrow> take n (filter (\<lambda>y. y \<noteq> x) L) = take n L"
proof (induction L arbitrary: n)
  case Nil
  then show ?case by simp
next
  case (Cons a L)
  then show ?case by (cases n) auto
qed

lemma filter_absent: "x \<notin> set L \<Longrightarrow> filter (\<lambda>y. y \<noteq> x) L = L"
  by (induction L) auto

lemma take_filter_present:
  "distinct L \<Longrightarrow> x \<in> set (take (Suc n) L) \<Longrightarrow>
   take n (filter (\<lambda>y. y \<noteq> x) L) = filter (\<lambda>y. y \<noteq> x) (take (Suc n) L)"
proof (induction L arbitrary: n)
  case Nil
  then show ?case by simp
next
  case (Cons a L)
  show ?case
  proof (cases "a = x")
    case True
    with Cons.prems have "x \<notin> set L" by simp
    then have "filter (\<lambda>y. y \<noteq> x) L = L" and "filter (\<lambda>y. y \<noteq> x) (take n L) = take n L"
      by (auto intro: filter_absent dest: in_set_takeD)
    with True show ?thesis by simp
  next
    case False
    with Cons.prems obtain m where n: "n = Suc m" and "x \<in> set (take (Suc m) L)"
      by (cases n) auto
    with Cons.IH [of m] Cons.prems False show ?thesis by simp
  qed
qed

text \<open>What one resolve does to the keys of a cache of capacity \<open>n\<close>.\<close>

lemma recency_step:
  assumes "distinct L" and "0 < n"
  shows "take n (x # filter (\<lambda>y. y \<noteq> x) L) =
         (if x \<in> set (take n L) then x # filter (\<lambda>y. y \<noteq> x) (take n L)
          else if n \<le> length (take n L) then butlast (x # take n L)
          else x # take n L)"
proof -
  from assms(2) obtain m where n: "n = Suc m" by (cases n) auto
  show ?thesis
  proof (cases "x \<in> set (take n L)")
    case True
    then show ?thesis
      using take_filter_present [OF assms(1), of x m] by (simp add: n)
  next
    case False
    then have "x \<notin> set (take m L)"
      using set_take_subset_set_take [of m n L] n by auto
    then have f: "take m (filter (\<lambda>y. y \<noteq> x) L) = take m L"
      by (rule take_filter_absent)
    show ?thesis
    proof (cases "n \<le> length L")
      case True
      then have "butlast (take n L) = take m L" and "take n L \<noteq> []"
        using n by (auto simp: butlast_take)
      with False True f show ?thesis by (simp add: n)
    next
      case nle: False
      then have "take m L = L" and "take n L = L" using n by auto
      with False nle f show ?thesis by (simp add: n)
    qed
  qed
qed

lemma cache_keys_hit:
  "map fst (filter (\<lambda>kv. fst kv \<noteq> pid) xs) = filter (\<lambda>k. k \<noteq> pid) (map fst xs)"
  by (simp add: filter_map comp_def)

lemma serviceName_keys:
  assumes res: "serviceName e p pid st = Some (n, st')"
  shows "capacity (activePids st') = capacity (activePids st) \<and>
         cache_keys st' =
           (if pid \<in> set (cache_keys st) then pid # filter (\<lambda>k. k \<noteq> pid) (cache_keys st)
            else if capacity (activePids st) \<le> length (cache_keys st)
            then butlast (pid # cache_keys st)
            else pid # cache_keys st)"
proof (cases "pid \<in> set (cache_keys st)")
  case True
  then obtain v where hit: "map_of (items (activePids st)) pid = Some v"
    by (metis cache_keys_def map_of_eq_None_iff not_Some_eq set_map)
  from res have "st' = st\<lparr>activePids := (activePids st)
        \<lparr>items := (pid, v) # filter (\<lambda>kv. fst kv \<noteq> pid) (items (activePids st))\<rparr>\<rparr>"
    by (auto simp: serviceName_hit [OF hit])
  with True show ?thesis
    by (simp add: cache_keys_def cache_keys_hit)
next
  case False
  obtain m st2 where c: "commName e p pid st = Some (m, st2)"
    using commName_total by blast
  from res have st': "st' = st2\<lparr>activePids := snd (lru_Add (activePids st2) pid m)\<rparr>"
    by (auto simp: serviceName_miss [OF False] c)
  have ap: "activePids st2 = activePids st"
    using c by (rule commName_activePids)
  from False have none: "map_of (items (activePids st)) pid = None"
    by (simp add: cache_keys_def map_of_eq_None_iff)
  have "map fst (butlast ((pid, m) # items (activePids st))) =
        butlast (pid # map fst (items (activePids st)))"
    by (simp only: map_butlast list.map fst_conv)
  with False show ?thesis
    by (simp add: st' ap lru_Add_capacity lru_Add_new_items [OF none] cache_keys_def)
qed

lemma resolve_seq_append:
  "resolve_seq (a @ b) st =
   (case resolve_seq a st of None \<Rightarrow> None | Some s \<Rightarrow> resolve_seq b s)"
  by (induction a st rule: resolve_seq.induct) (auto split: option.splits)

lemma resolve_seq_keys:
  "\<exists>st. resolve_seq ops init_state = Some st \<and> capacity (activePids st) = 64 \<and>
     cache_keys st = take 64 (rev (remdups (map (snd \<circ> snd) ops)))"
proof (induction ops rule: rev_induct)
  case Nil
  show ?case by (simp add: init_state_def lru_New_def cache_keys_def)
next
  case (snoc op ops)
  then obtain st where run: "resolve_seq ops init_state = Some st"
    and cap: "capacity (activePids st) = 64"
    and keys: "cache_keys st = take 64 (rev (remdups (map (snd \<circ> snd) ops)))"
    by blast
  obtain e p pid where op: "op = (e, p, pid)" by (cases op)
  obtain n st' where res: "serviceName e p pid st = Some (n, st')"
    using serviceName_total by blast
  have run': "resolve_seq (ops @ [op]) init_state = Some st'"
    by (simp add: resolve_seq_append run op res)
  let ?L = "rev (remdups (map (snd \<circ> snd) ops))"
  have "distinct ?L" by simp
  then have step: "take 64 (pid # filter (\<lambda>y. y \<noteq> pid) ?L) =
         (if pid \<in> set (take 64 ?L) then pid # filter (\<lambda>y. y \<noteq> pid) (take 64 ?L)
          else if 64 \<le> length (take 64 ?L) then butlast (pid # take 64 ?L)
          else pid # take 64 ?L)"
    by (rule recency_step) simp
  have "rev (remdups (map (snd \<circ> snd) (ops @ [op]))) = pid # filter (\<lambda>y. y \<noteq> pid) ?L"
    using recency_snoc [of "map (snd \<circ> snd) ops" pid] by (simp add: op)
  with step serviceName_keys [OF res] cap keys
  have "capacity (activePids st') = 64 \<and>
        cache_keys st' = take 64 (rev (remdups (map (snd \<circ> snd) (ops @ [op]))))"
    by simp
  with run' show ?case by blast
qed

text \<open>
  C6.  Every run of resolve operations from the initial state goes through, and the keys
  of the cache it leaves are the 64 most recently resolved distinct pids of the run,
  the most recent first: at most 64, and no pid twice.  In the state it leaves, a resolve
  of a pid that the cache holds removes nothing; a resolve of a new pid while the cache
  holds fewer than 64 adds the pid and removes nothing; a resolve of a new pid while the
  cache holds 64 puts the pid in front and removes the last key, the least recently used
  one, and nothing else.  The cache depends on nothing but the pids resolved: no clock
  takes part.
\<close>

theorem C6_cache_bounded_lru:
  "\<exists>st. resolve_seq ops init_state = Some st \<and>
     cache_keys st = take 64 (rev (remdups (map (snd \<circ> snd) ops))) \<and>
     length (cache_keys st) \<le> 64 \<and> distinct (cache_keys st) \<and>
     (\<forall>e p pid. \<exists>n st'. serviceName e p pid st = Some (n, st') \<and>
        (if pid \<in> set (cache_keys st) then set (cache_keys st') = set (cache_keys st)
         else if length (cache_keys st) = 64
         then cache_keys st' = pid # butlast (cache_keys st)
         else cache_keys st' = pid # cache_keys st))"
proof -
  obtain st where run: "resolve_seq ops init_state = Some st"
    and cap: "capacity (activePids st) = 64"
    and keys: "cache_keys st = take 64 (rev (remdups (map (snd \<circ> snd) ops)))"
    using resolve_seq_keys by blast
  have len: "length (cache_keys st) \<le> 64" and dist: "distinct (cache_keys st)"
    by (simp_all add: keys)
  have step: "\<exists>n st'. serviceName e p pid st = Some (n, st') \<and>
        (if pid \<in> set (cache_keys st) then set (cache_keys st') = set (cache_keys st)
         else if length (cache_keys st) = 64
         then cache_keys st' = pid # butlast (cache_keys st)
         else cache_keys st' = pid # cache_keys st)" for e p pid
  proof -
    obtain n st' where res: "serviceName e p pid st = Some (n, st')"
      using serviceName_total by blast
    from serviceName_keys [OF res] cap len
    have "if pid \<in> set (cache_keys st) then set (cache_keys st') = set (cache_keys st)
         else if length (cache_keys st) = 64
         then cache_keys st' = pid # butlast (cache_keys st)
         else cache_keys st' = pid # cache_keys st"
      by (cases "cache_keys st = []") auto
    with res show ?thesis by blast
  qed
  from run keys len dist step show ?thesis by blast
qed

theorem C6_cache_bounded_lru_witness:
  "map_option cache_keys (resolve_seq ops_66 init_state) = Some keys_after_66 \<and>
   length keys_after_66 = 64 \<and> 1 \<in> set keys_after_66 \<and> 2 \<notin> set keys_after_66"
proof -
  from C6_cache_bounded_lru [of ops_66]
  obtain st where run: "resolve_seq ops_66 init_state = Some st"
    and keys: "cache_keys st = take 64 (rev (remdups (map (snd \<circ> snd) ops_66)))"
    by blast
  have pids: "map (snd \<circ> snd) ops_66 = pids_66"
    by (simp add: ops_66_def comp_def)
  have "take 64 (rev (remdups pids_66)) = keys_after_66"
    by (simp add: pids_66_def keys_after_66_def)
  with run keys pids have 1: "map_option cache_keys (resolve_seq ops_66 init_state) = Some keys_after_66"
    by simp
  have 2: "length keys_after_66 = 64 \<and> 1 \<in> set keys_after_66 \<and> 2 \<notin> set keys_after_66"
    by (simp add: keys_after_66_def)
  from 1 2 show ?thesis by blast
qed

end
